theory Spec2Isabelle
  imports Main "HOL-Library.AList" "HOL-Library.Word"
begin

section \<open>Shared and weak pointers\<close>

text \<open>
  The cache of \<^verbatim>\<open>ResManagement.h\<close> is written against \<^verbatim>\<open>std::shared_ptr\<close> and
  \<^verbatim>\<open>std::weak_ptr\<close>. A pointer is modelled by the address of the object it manages
  (\<open>None\<close> is the empty pointer); the object lives in \<open>heap_values\<close> and its control
  block (the strong count and the deleter given at construction) in \<open>ctrl\<close>, both keyed
  by that address. Addresses are handed out by a counter and never reused.
\<close>

type_synonym addr = nat
type_synonym user = nat
type_synonym ResourcePathType = string
type_synonym TypeSharedPtr = "addr option"
type_synonym TypeWeakPtr = "addr option"
type_synonym TypeUniquePtr = "addr option"

datatype deleter = default_delete | destroyData_deleter

record ctrl_block =
  use_count :: nat
  del :: deleter

text \<open>
  \<^verbatim>\<open>struct Resource\<close>: the weak pointer and the two signals. A signal is the list of
  its connected slots in connection order; every slot of this program is bound to one user
  (an \<^verbatim>\<open>IReloadableBase\<close>), so a slot is the user's identity.
\<close>

record Resource =
  resource :: TypeWeakPtr
  requestReload :: "user list"
  reloadDone :: "user list"

datatype backend_call = DoLoad ResourcePathType | DoSave ResourcePathType

datatype notification = RequestReload user | ReloadDone user

text \<open>
  The state of one \<^verbatim>\<open>Factory\<close> instance and of the memory it works on. \<open>m_cache\<close> is the
  \<^verbatim>\<open>std::unordered_map\<close>: a list of key/entry pairs with one pair per key, whose order
  stands for the container's iteration order (a new key is put at the end).
  \<open>store\<close> is the state of the backing medium that \<^verbatim>\<open>doLoad\<close> and \<^verbatim>\<open>doSave\<close>
  work on. \<open>calls\<close> records every call of \<^verbatim>\<open>doLoad\<close>/\<^verbatim>\<open>doSave\<close> that was made and
  \<open>delivered\<close> every slot invocation, in order.
\<close>

record ('v, 'b) Factory =
  m_cache :: "(ResourcePathType \<times> Resource) list"
  heap_values :: "addr \<rightharpoonup> 'v"
  ctrl :: "addr \<rightharpoonup> ctrl_block"
  next_addr :: addr
  store :: 'b
  calls :: "backend_call list"
  delivered :: "notification list"

text \<open>
  The pure virtual members of \<^verbatim>\<open>Factory\<close>. \<^verbatim>\<open>doLoad\<close> and \<^verbatim>\<open>doSave\<close> receive the
  value by reference and return a flag: they map the value and the backing store to the
  flag, the value as they leave it, and the store as they leave it. \<open>default_value\<close> is
  the value-initialised \<^verbatim>\<open>ValueType()\<close> of \<^verbatim>\<open>std::make_unique\<close>.
\<close>

record ('v, 'b) adapter =
  hasValidExtension :: "ResourcePathType \<Rightarrow> bool"
  doLoad :: "ResourcePathType \<Rightarrow> 'v \<Rightarrow> 'b \<Rightarrow> bool \<times> 'v \<times> 'b"
  doSave :: "ResourcePathType \<Rightarrow> 'v \<Rightarrow> 'b \<Rightarrow> bool \<times> 'v \<times> 'b"
  default_value :: 'v

definition empty_Factory :: "'b \<Rightarrow> ('v, 'b) Factory" where
  "empty_Factory b =
     \<lparr>m_cache = [], heap_values = Map.empty, ctrl = Map.empty, next_addr = 0,
      store = b, calls = [], delivered = []\<rparr>"

text \<open>\<^verbatim>\<open>weak_ptr::expired()\<close>: no control block, or a strong count of zero.\<close>

definition expired :: "('v, 'b) Factory \<Rightarrow> TypeWeakPtr \<Rightarrow> bool" where
  "expired st w =
     (case w of
        None \<Rightarrow> True
      | Some a \<Rightarrow> (case ctrl st a of None \<Rightarrow> True | Some c \<Rightarrow> use_count c = 0))"

text \<open>\<^verbatim>\<open>weak_ptr::lock()\<close>: a new strong reference when the object is alive.\<close>

definition lock :: "('v, 'b) Factory \<Rightarrow> TypeWeakPtr \<Rightarrow> TypeSharedPtr \<times> ('v, 'b) Factory" where
  "lock st w =
     (case w of
        None \<Rightarrow> (None, st)
      | Some a \<Rightarrow>
          (case ctrl st a of
             None \<Rightarrow> (None, st)
           | Some c \<Rightarrow>
               if use_count c = 0 then (None, st)
               else (Some a, st\<lparr>ctrl := (ctrl st)(a \<mapsto> c\<lparr>use_count := Suc (use_count c)\<rparr>)\<rparr>)))"

text \<open>Copying a \<^verbatim>\<open>shared_ptr\<close> (passing an lvalue handle by value).\<close>

definition copy_shared :: "('v, 'b) Factory \<Rightarrow> TypeSharedPtr \<Rightarrow> ('v, 'b) Factory" where
  "copy_shared st h =
     (case h of
        None \<Rightarrow> st
      | Some a \<Rightarrow>
          (case ctrl st a of
             None \<Rightarrow> st
           | Some c \<Rightarrow> st\<lparr>ctrl := (ctrl st)(a \<mapsto> c\<lparr>use_count := Suc (use_count c)\<rparr>)\<rparr>))"

section \<open>The cache\<close>

text \<open>
  \<^verbatim>\<open>Factory::destroyData\<close>, the deleter given to every handle that \<^verbatim>\<open>loadInternal\<close>
  creates: \<^verbatim>\<open>std::find_if\<close> for the first expired entry, \<^verbatim>\<open>erase\<close> of that entry, and
  nothing else. The raw pointer it receives is not used.
\<close>

definition destroyData :: "('v, 'b) Factory \<Rightarrow> addr \<Rightarrow> ('v, 'b) Factory" where
  "destroyData st raw =
     (case find (\<lambda>p. expired st (resource (snd p))) (m_cache st) of
        None \<Rightarrow> st
      | Some p \<Rightarrow> st\<lparr>m_cache := remove1 p (m_cache st)\<rparr>)"

text \<open>
  Destruction of a \<^verbatim>\<open>shared_ptr\<close>: the strong count drops by one, and the holder of the
  last reference runs the deleter after the count has reached zero (so the weak pointers
  are expired while the deleter runs). The default deleter frees the object.
\<close>

definition release :: "('v, 'b) Factory \<Rightarrow> TypeSharedPtr \<Rightarrow> ('v, 'b) Factory" where
  "release st h =
     (case h of
        None \<Rightarrow> st
      | Some a \<Rightarrow>
          (case ctrl st a of
             None \<Rightarrow> st
           | Some c \<Rightarrow>
               let st' = st\<lparr>ctrl := (ctrl st)(a \<mapsto> c\<lparr>use_count := use_count c - 1\<rparr>)\<rparr>
               in if use_count c = 1 then
                    (case del c of
                       default_delete \<Rightarrow> st'\<lparr>heap_values := (heap_values st')(a := None)\<rparr>
                     | destroyData_deleter \<Rightarrow> destroyData st' a)
                  else st'))"

text \<open>\<^verbatim>\<open>std::make_unique<ValueType>()\<close> and the destruction of a \<^verbatim>\<open>unique_ptr\<close>.\<close>

definition make_unique :: "('v, 'b) adapter \<Rightarrow> ('v, 'b) Factory \<Rightarrow> addr \<times> ('v, 'b) Factory" where
  "make_unique ad st =
     (next_addr st,
      st\<lparr>heap_values := (heap_values st)(next_addr st \<mapsto> default_value ad),
         next_addr := Suc (next_addr st)\<rparr>)"

definition delete_unique :: "('v, 'b) Factory \<Rightarrow> addr \<Rightarrow> ('v, 'b) Factory" where
  "delete_unique st u = st\<lparr>heap_values := (heap_values st)(u := None)\<rparr>"

text \<open>\<^verbatim>\<open>Factory::getFromCache\<close>.\<close>

definition getFromCache ::
  "('v, 'b) Factory \<Rightarrow> ResourcePathType \<Rightarrow> TypeSharedPtr \<times> ('v, 'b) Factory" where
  "getFromCache st r =
     (case map_of (m_cache st) r of
        None \<Rightarrow> (None, st)
      | Some cached \<Rightarrow>
          if expired st (resource cached)
          then (None, st\<lparr>m_cache := AList.delete r (m_cache st)\<rparr>)
          else lock st (resource cached))"

text \<open>
  \<^verbatim>\<open>Factory::loadInternal\<close> holds the mutex twice and calls the backend in between, so it
  is three steps that other threads can interleave with: the format check and first lookup
  (lines 155-165), the backend load without the lock (lines 167-173) and the second lookup
  with the installation (lines 175-188). \<open>loadInternal\<close> runs the three in a row.
\<close>

datatype 'a step = Return 'a | Continue

definition loadInternal_lookup ::
  "('v, 'b) adapter \<Rightarrow> ('v, 'b) Factory \<Rightarrow> ResourcePathType
     \<Rightarrow> TypeSharedPtr step \<times> ('v, 'b) Factory" where
  "loadInternal_lookup ad st path =
     (if \<not> hasValidExtension ad path then (Return None, st)
      else
        (case getFromCache st path of
           (Some a, st1) \<Rightarrow> (Return (Some a), st1)
         | (None, st1) \<Rightarrow> (Continue, st1)))"

definition loadInternal_backend ::
  "('v, 'b) adapter \<Rightarrow> ('v, 'b) Factory \<Rightarrow> ResourcePathType
     \<Rightarrow> TypeUniquePtr \<times> ('v, 'b) Factory" where
  "loadInternal_backend ad st path =
     (case make_unique ad st of
        (u, st1) \<Rightarrow>
          (case doLoad ad path (default_value ad) (store st1) of
             (ok, v, b) \<Rightarrow>
               let st2 = st1\<lparr>heap_values := (heap_values st1)(u \<mapsto> v), store := b,
                             calls := calls st1 @ [DoLoad path]\<rparr>
               in if \<not> ok then (None, delete_unique st2 u) else (Some u, st2)))"

definition loadInternal_install ::
  "('v, 'b) Factory \<Rightarrow> ResourcePathType \<Rightarrow> addr \<Rightarrow> TypeSharedPtr \<times> ('v, 'b) Factory" where
  "loadInternal_install st path u =
     (case getFromCache st path of
        (Some a, st1) \<Rightarrow> (Some a, delete_unique st1 u)
      | (None, st1) \<Rightarrow>
          let st2 = st1\<lparr>ctrl := (ctrl st1)(u \<mapsto> \<lparr>use_count = 1, del = destroyData_deleter\<rparr>)\<rparr>;
              res = \<lparr>resource = Some u, requestReload = [], reloadDone = []\<rparr>
          in (Some u, st2\<lparr>m_cache := AList.update path res (m_cache st2)\<rparr>))"

definition loadInternal ::
  "('v, 'b) adapter \<Rightarrow> ('v, 'b) Factory \<Rightarrow> ResourcePathType
     \<Rightarrow> TypeSharedPtr \<times> ('v, 'b) Factory" where
  "loadInternal ad st path =
     (case loadInternal_lookup ad st path of
        (Return r, st1) \<Rightarrow> (r, st1)
      | (Continue, st1) \<Rightarrow>
          (case loadInternal_backend ad st1 path of
             (None, st2) \<Rightarrow> (None, st2)
           | (Some u, st2) \<Rightarrow> loadInternal_install st2 path u))"

text \<open>
  \<^verbatim>\<open>Factory::saveInternal\<close>. The handle is a by-value parameter: the function owns one
  strong reference and gives it up on every return. \<^verbatim>\<open>*data\<close> on an empty handle (or on
  a handle whose object is gone) is undefined behaviour, the error \<open>NullDereference\<close>.
\<close>

datatype error = NullDereference

definition saveInternal ::
  "('v, 'b) adapter \<Rightarrow> ('v, 'b) Factory \<Rightarrow> ResourcePathType \<Rightarrow> TypeSharedPtr
     \<Rightarrow> error + bool \<times> ('v, 'b) Factory" where
  "saveInternal ad st path data =
     (if \<not> hasValidExtension ad path then Inr (False, release st data)
      else
        (case data of
           None \<Rightarrow> Inl NullDereference
         | Some a \<Rightarrow>
             (case heap_values st a of
                None \<Rightarrow> Inl NullDereference
              | Some v \<Rightarrow>
                  (case doSave ad path v (store st) of
                     (ok, v', b) \<Rightarrow>
                       let st1 = st\<lparr>heap_values := (heap_values st)(a \<mapsto> v'), store := b,
                                    calls := calls st @ [DoSave path]\<rparr>
                       in if \<not> ok then Inr (False, release st1 data)
                          else
                            let res = \<lparr>resource = data, requestReload = [], reloadDone = []\<rparr>;
                                st2 = st1\<lparr>m_cache := AList.update path res (m_cache st1)\<rparr>
                            in Inr (True, release st2 data)))))"

text \<open>
  The static entry points. \<^verbatim>\<open>load\<close> forwards to \<^verbatim>\<open>loadInternal\<close>. \<^verbatim>\<open>save\<close> takes
  the handle by value and moves it on; \<open>save\<close> is the call \<^verbatim>\<open>save(resource, data)\<close>
  with a handle that the caller keeps, which is copied into the parameter.
\<close>

definition load ::
  "('v, 'b) adapter \<Rightarrow> ('v, 'b) Factory \<Rightarrow> ResourcePathType
     \<Rightarrow> TypeSharedPtr \<times> ('v, 'b) Factory" where
  "load ad st path = loadInternal ad st path"

definition save ::
  "('v, 'b) adapter \<Rightarrow> ('v, 'b) Factory \<Rightarrow> ResourcePathType \<Rightarrow> TypeSharedPtr
     \<Rightarrow> error + bool \<times> ('v, 'b) Factory" where
  "save ad st path data = saveInternal ad (copy_shared st data) path data"

text \<open>
  \<^verbatim>\<open>std::make_shared\<close> in client code (as in \<^verbatim>\<open>prepareTestData\<close>): a new object with a
  control block of its own, one strong reference and the default deleter.
\<close>

definition make_shared :: "('v, 'b) Factory \<Rightarrow> 'v \<Rightarrow> TypeSharedPtr \<times> ('v, 'b) Factory" where
  "make_shared st v =
     (Some (next_addr st),
      st\<lparr>heap_values := (heap_values st)(next_addr st \<mapsto> v),
         ctrl := (ctrl st)(next_addr st \<mapsto> \<lparr>use_count = 1, del = default_delete\<rparr>),
         next_addr := Suc (next_addr st)\<rparr>)"

text \<open>A handle that its holder can use: not empty, and its object has strong references.\<close>

definition live :: "('v, 'b) Factory \<Rightarrow> TypeSharedPtr \<Rightarrow> bool" where
  "live st h = (h \<noteq> None \<and> \<not> expired st h)"

text \<open>
  \<^verbatim>\<open>Factory::registerUser\<close>. Each \<^verbatim>\<open>connect\<close> appends a slot for the user to the
  signal of the entry found; assigning the new connection to the user's
  \<^verbatim>\<open>scoped_connection\<close> disconnects the connection the user held before, in whichever
  entry it was. Nothing happens when the key has no entry.
\<close>

definition registerUser ::
  "('v, 'b) Factory \<Rightarrow> ResourcePathType \<Rightarrow> user \<Rightarrow> ('v, 'b) Factory" where
  "registerUser st path u =
     (case map_of (m_cache st) path of
        None \<Rightarrow> st
      | Some sig \<Rightarrow>
          st\<lparr>m_cache :=
               map (\<lambda>(k, e).
                      (k, e\<lparr>requestReload :=
                              removeAll u (requestReload e) @ (if k = path then [u] else []),
                            reloadDone :=
                              removeAll u (reloadDone e) @ (if k = path then [u] else [])\<rparr>))
                   (m_cache st)\<rparr>)"

text \<open>
  Modelled from the spec: the broadcast on a key's channels. No function of
  \<^verbatim>\<open>ResManagement.h\<close> invokes a signal (the class leaves that to its friend
  \<^verbatim>\<open>DebugInterface\<close>, declared elsewhere); the spec says a fired channel invokes its
  subscribers in subscription order.
\<close>

definition fire_requestReload :: "('v, 'b) Factory \<Rightarrow> ResourcePathType \<Rightarrow> ('v, 'b) Factory" where
  "fire_requestReload st path =
     (case map_of (m_cache st) path of
        None \<Rightarrow> st
      | Some e \<Rightarrow> st\<lparr>delivered := delivered st @ map RequestReload (requestReload e)\<rparr>)"

definition fire_reloadDone :: "('v, 'b) Factory \<Rightarrow> ResourcePathType \<Rightarrow> ('v, 'b) Factory" where
  "fire_reloadDone st path =
     (case map_of (m_cache st) path of
        None \<Rightarrow> st
      | Some e \<Rightarrow> st\<lparr>delivered := delivered st @ map ReloadDone (reloadDone e)\<rparr>)"

text \<open>
  A stand-in backend for evaluating the operations: values are numbers, paths ending in
  \<^verbatim>\<open>.txt\<close> are accepted, a load writes \<open>42\<close> into the value, and the two flags say
  whether loading and saving succeed.
\<close>

definition stub_adapter :: "bool \<Rightarrow> bool \<Rightarrow> (nat, unit) adapter" where
  "stub_adapter load_ok save_ok =
     \<lparr>hasValidExtension = (\<lambda>p. drop (length p - 4) p = ''.txt''),
      doLoad = (\<lambda>p v b. (load_ok, 42, b)),
      doSave = (\<lambda>p v b. (save_ok, v, b)),
      default_value = 0\<rparr>"

text \<open>
  What every reachable cache satisfies: one pair per key, and every pair was installed by
  \<^verbatim>\<open>loadInternal\<close> or \<^verbatim>\<open>saveInternal\<close>, so its key has a valid format and its weak
  pointer refers to an object that was allocated at some time.
\<close>

definition cache_inv :: "('v, 'b) adapter \<Rightarrow> ('v, 'b) Factory \<Rightarrow> bool" where
  "cache_inv ad st =
     (distinct (map fst (m_cache st)) \<and>
      list_all (\<lambda>(k, e). hasValidExtension ad k \<and>
                  (case resource e of None \<Rightarrow> False | Some a \<Rightarrow> a < next_addr st))
               (m_cache st))"

section \<open>The aggregate consumer\<close>

text \<open>
  \<^verbatim>\<open>TestData.h\<close>: a record is an \<^verbatim>\<open>ObjectData\<close> or a \<^verbatim>\<open>ModelObjectData\<close> derived
  from it; the constructor is the runtime type. \<^verbatim>\<open>Data::objects\<close> owns its records
  through non-empty \<^verbatim>\<open>unique_ptr\<close>s. \<open>duration\<close> is the bit pattern of the
  \<^verbatim>\<open>float\<close>; nothing computes with it.
\<close>

datatype ObjectData =
    ObjectData (name: string)
  | ModelObjectData (name: string) (modelPayload: "8 word list")

record Data =
  objects :: "ObjectData list"
  duration :: "32 word"

text \<open>
  \<^verbatim>\<open>TestShareds.cpp\<close>. A \<^verbatim>\<open>ModelObjectInstance\<close> holds a reference to its record
  (\<open>m_data\<close>, here the record referred to) and a shared pointer to a wrapper. The
  entries of \<^verbatim>\<open>Sequence::m_objects\<close> are \<^verbatim>\<open>unique_ptr\<close>s, \<open>None\<close> when empty. The
  \<^verbatim>\<open>Sequence\<close> refers to its \<^verbatim>\<open>Data\<close> by a shared pointer, whose target is read
  from the heap given to the functions that dereference it; the counting of its strong
  references is that of the first section and is not repeated here.
\<close>

datatype ModelObjectInstanceIntermediateData =
  ModelObjectInstanceIntermediateData (wrapper: "addr option")

record ModelObjectInstance =
  m_data :: ObjectData
  m_wrapped :: "addr option"

record Sequence =
  m_data_Sequence :: "addr option"
  m_objects :: "ModelObjectInstance option list"

type_synonym SequenceIntermediateData = "string \<rightharpoonup> ModelObjectInstanceIntermediateData"

text \<open>
  \<^verbatim>\<open>boost::typeindex::runtime_cast<ModelObjectData*>\<close> and
  \<^verbatim>\<open>ObjectFactory::createModel\<close>.
\<close>

definition runtime_cast_ModelObjectData :: "ObjectData \<Rightarrow> ObjectData option" where
  "runtime_cast_ModelObjectData objectData =
     (case objectData of
        ObjectData n \<Rightarrow> None
      | ModelObjectData n p \<Rightarrow> Some objectData)"

definition createModel :: "ObjectData \<Rightarrow> ModelObjectInstance" where
  "createModel data = \<lparr>m_data = data, m_wrapped = None\<rparr>"

text \<open>
  \<^verbatim>\<open>Sequence::initFromData\<close>: after \<^verbatim>\<open>clear\<close>, one \<^verbatim>\<open>push_back\<close> per record, of
  the new instance when the cast succeeds and of the empty pointer otherwise.
\<close>

fun initFromData_loop ::
  "ObjectData list \<Rightarrow> ModelObjectInstance option list \<Rightarrow> ModelObjectInstance option list" where
  "initFromData_loop [] objs = objs"
| "initFromData_loop (objectData # rest) objs =
     (let instance =
            (case runtime_cast_ModelObjectData objectData of
               Some d \<Rightarrow> Some (createModel d)
             | None \<Rightarrow> None)
      in initFromData_loop rest (objs @ [instance]))"

definition initFromData :: "Data \<Rightarrow> ModelObjectInstance option list" where
  "initFromData data = initFromData_loop (objects data) []"

text \<open>
  \<^verbatim>\<open>ModelObjectInstance::prepareReload\<close> and \<^verbatim>\<open>ModelObjectInstance::reloadFromData\<close>.
  The assignment \<^verbatim>\<open>m_data = data\<close> is \<^verbatim>\<open>ObjectData::operator=\<close> on the record
  referred to: it copies the name and leaves the runtime type and the payload.
\<close>

definition ModelObjectInstance_prepareReload ::
  "ModelObjectInstance \<Rightarrow> ModelObjectInstanceIntermediateData" where
  "ModelObjectInstance_prepareReload obj = ModelObjectInstanceIntermediateData (m_wrapped obj)"

fun assign_ObjectData :: "ObjectData \<Rightarrow> ObjectData \<Rightarrow> ObjectData" where
  "assign_ObjectData (ObjectData n) src = ObjectData (name src)"
| "assign_ObjectData (ModelObjectData n p) src = ModelObjectData (name src) p"

definition ModelObjectInstance_reloadFromData ::
  "ModelObjectInstance \<Rightarrow> ModelObjectInstanceIntermediateData \<Rightarrow> ObjectData
     \<Rightarrow> ModelObjectInstance" where
  "ModelObjectInstance_reloadFromData obj state data =
     obj\<lparr>m_data := assign_ObjectData (m_data obj) data, m_wrapped := wrapper state\<rparr>"

text \<open>
  \<^verbatim>\<open>Sequence::prepareReload\<close> and \<^verbatim>\<open>Sequence::reloadFromData\<close>. Calling
  \<^verbatim>\<open>name()\<close> through an empty child pointer, or dereferencing an empty data pointer,
  is the error \<open>NullDereference\<close>.
\<close>

fun prepareReload_loop ::
  "ModelObjectInstance option list \<Rightarrow> SequenceIntermediateData
     \<Rightarrow> error + SequenceIntermediateData" where
  "prepareReload_loop [] data = Inr data"
| "prepareReload_loop (None # rest) data = Inl NullDereference"
| "prepareReload_loop (Some obj # rest) data =
     prepareReload_loop rest (data(name (m_data obj) \<mapsto> ModelObjectInstance_prepareReload obj))"

definition prepareReload :: "Sequence \<Rightarrow> error + SequenceIntermediateData" where
  "prepareReload seq = prepareReload_loop (m_objects seq) Map.empty"

function reloadFromData_loop ::
  "SequenceIntermediateData \<Rightarrow> Data \<Rightarrow> nat \<Rightarrow> ModelObjectInstance option list
     \<Rightarrow> error + ModelObjectInstance option list" where
  "reloadFromData_loop state data i objs =
     (if i < length objs then
        (case objs ! i of
           None \<Rightarrow> Inl NullDereference
         | Some obj \<Rightarrow>
             (case state (name (m_data obj)) of
                None \<Rightarrow> reloadFromData_loop state data (Suc i) objs
              | Some s \<Rightarrow>
                  if i < length (objects data) then
                    reloadFromData_loop state data (Suc i)
                      (objs[i := Some (ModelObjectInstance_reloadFromData obj s (objects data ! i))])
                  else Inl NullDereference))
      else Inr objs)"
  by pat_completeness auto
termination
  by (relation "measure (\<lambda>(state, data, i, objs). length objs - i)") auto

definition reloadFromData ::
  "(addr \<rightharpoonup> Data) \<Rightarrow> Sequence \<Rightarrow> SequenceIntermediateData \<Rightarrow> addr option
     \<Rightarrow> error + Sequence" where
  "reloadFromData heap seq state data =
     (case data of
        None \<Rightarrow> Inl NullDereference
      | Some p \<Rightarrow>
          (case heap p of
             None \<Rightarrow> Inl NullDereference
           | Some d \<Rightarrow>
               (case reloadFromData_loop state d 0 (initFromData d) of
                  Inl e \<Rightarrow> Inl e
                | Inr objs \<Rightarrow> Inr \<lparr>m_data_Sequence = data, m_objects = objs\<rparr>)))"

text \<open>The constructor \<^verbatim>\<open>Sequence(std::shared_ptr<Data>)\<close>.\<close>

definition construct_Sequence :: "(addr \<rightharpoonup> Data) \<Rightarrow> addr option \<Rightarrow> error + Sequence" where
  "construct_Sequence heap data =
     (case data of
        None \<Rightarrow> Inl NullDereference
      | Some p \<Rightarrow>
          (case heap p of
             None \<Rightarrow> Inl NullDereference
           | Some d \<Rightarrow> Inr \<lparr>m_data_Sequence = data, m_objects = initFromData d\<rparr>))"

section \<open>Scenarios\<close>

text \<open>
  States reached by running the operations from the empty cache with the stand-in backend,
  used to evaluate the statements below. \<open>loaded_state\<close>: one load of
  \<^verbatim>\<open>temp.txt\<close>, the caller holding the handle \<open>Some 0\<close>. \<open>registered_state\<close>: user
  \<open>5\<close> registered for that key. \<open>race_state\<close>: two threads loading \<^verbatim>\<open>temp.txt\<close>, both
  past the backend call, the second having installed its object \<open>1\<close> while the first still
  holds its own object \<open>0\<close>. \<open>handle_state\<close>: a client object made with
  \<^verbatim>\<open>make_shared\<close>. \<open>dead_entry_state\<close>: that object saved as \<^verbatim>\<open>temp.txt\<close> and its
  only handle dropped, which leaves a dead entry; \<open>dead_entry_with_handle\<close> adds a new
  client object \<open>1\<close>, and \<open>mixed_state\<close> adds a loaded live entry for \<^verbatim>\<open>other.txt\<close>.
\<close>

definition loaded_state :: "(nat, unit) Factory" where
  "loaded_state = snd (load (stub_adapter True True) (empty_Factory ()) ''temp.txt'')"

definition registered_state :: "(nat, unit) Factory" where
  "registered_state = registerUser loaded_state ''temp.txt'' 5"


definition handle_state :: "(nat, unit) Factory" where
  "handle_state = snd (make_shared (empty_Factory ()) 7)"

definition dead_entry_state :: "(nat, unit) Factory" where
  "dead_entry_state =
     (case save (stub_adapter True True) handle_state ''temp.txt'' (Some 0) of
        Inl e \<Rightarrow> handle_state
      | Inr (ok, s) \<Rightarrow> release s (Some 0))"

definition dead_entry_with_handle :: "(nat, unit) Factory" where
  "dead_entry_with_handle = snd (make_shared dead_entry_state 9)"

definition mixed_state :: "(nat, unit) Factory" where
  "mixed_state = snd (load (stub_adapter True True) dead_entry_state ''other.txt'')"

section \<open>Components that the operations leave alone\<close>

lemma copy_shared_fields [simp]:
  "m_cache (copy_shared st h) = m_cache st"
  "heap_values (copy_shared st h) = heap_values st"
  "next_addr (copy_shared st h) = next_addr st"
  "store (copy_shared st h) = store st"
  "calls (copy_shared st h) = calls st"
  "delivered (copy_shared st h) = delivered st"
  by (simp_all add: copy_shared_def split: option.splits)

lemma destroyData_fields [simp]:
  "heap_values (destroyData st raw) = heap_values st"
  "ctrl (destroyData st raw) = ctrl st"
  "next_addr (destroyData st raw) = next_addr st"
  "store (destroyData st raw) = store st"
  "calls (destroyData st raw) = calls st"
  "delivered (destroyData st raw) = delivered st"
  by (simp_all add: destroyData_def split: option.splits)

lemma release_fields [simp]:
  "next_addr (release st h) = next_addr st"
  "store (release st h) = store st"
  "calls (release st h) = calls st"
  "delivered (release st h) = delivered st"
  by (simp_all add: release_def Let_def split: option.splits deleter.splits)

lemma getFromCache_fields [simp]:
  "heap_values (snd (getFromCache st r)) = heap_values st"
  "next_addr (snd (getFromCache st r)) = next_addr st"
  "store (snd (getFromCache st r)) = store st"
  "calls (snd (getFromCache st r)) = calls st"
  "delivered (snd (getFromCache st r)) = delivered st"
  by (simp_all add: getFromCache_def lock_def split: option.splits)

lemma expired_ctrl_eq: "ctrl st' = ctrl st \<Longrightarrow> expired st' w = expired st w"
  by (cases w) (simp_all add: expired_def)

lemma stub_adapter_simps [simp]:
  "hasValidExtension (stub_adapter l s) p = (drop (length p - 4) p = ''.txt'')"
  "doLoad (stub_adapter l s) p v b = (l, 42, b)"
  "doSave (stub_adapter l s) p v b = (s, v, b)"
  "default_value (stub_adapter l s) = 0"
  by (simp_all add: stub_adapter_def)

section \<open>Lookups\<close>

lemma getFromCache_live:
  assumes "map_of (m_cache st) k = Some e" and "\<not> expired st (resource e)"
  shows "\<exists>a c. resource e = Some a \<and> ctrl st a = Some c \<and> 0 < use_count c \<and>
           getFromCache st k =
             (Some a, st\<lparr>ctrl := (ctrl st)(a \<mapsto> c\<lparr>use_count := Suc (use_count c)\<rparr>)\<rparr>)"
  using assms by (auto simp: getFromCache_def expired_def lock_def split: option.splits)

lemma getFromCache_miss:
  assumes "\<forall>e. map_of (m_cache st) k = Some e \<longrightarrow> expired st (resource e)"
  shows "getFromCache st k = (None, st\<lparr>m_cache := AList.delete k (m_cache st)\<rparr>)"
proof (cases "map_of (m_cache st) k")
  case None
  then have "k \<notin> fst ` set (m_cache st)" by (simp add: map_of_eq_None_iff)
  then have "AList.delete k (m_cache st) = m_cache st" by simp
  with None show ?thesis by (simp add: getFromCache_def)
next
  case (Some e)
  with assms show ?thesis by (simp add: getFromCache_def)
qed

lemma live_SomeD:
  assumes "live st v"
  shows "\<exists>a c. v = Some a \<and> ctrl st a = Some c \<and> 0 < use_count c"
  using assms by (auto simp: live_def expired_def split: option.splits)

lemma release_copy_shared:
  assumes "v = Some a" "ctrl st a = Some c" "0 < use_count c"
          "ctrl st1 = ctrl (copy_shared st v)"
  shows "release st1 v = st1\<lparr>ctrl := ctrl st\<rparr>"
proof -
  have "(ctrl st)(a \<mapsto> c) = ctrl st" using assms(2) by (rule map_upd_triv)
  then show ?thesis
  using assms by (simp add: release_def copy_shared_def Let_def)
qed

lemma save_live_eq:
  assumes "live st (Some a)" and "hasValidExtension ad k"
    and "heap_values st a = Some val" and "doSave ad k val (store st) = (ok, v', b)"
  shows "save ad st k (Some a) =
           Inr (ok, st\<lparr>m_cache :=
                           (if ok then AList.update k
                                 \<lparr>resource = Some a, requestReload = [], reloadDone = []\<rparr>
                                 (m_cache st)
                            else m_cache st),
                        heap_values := (heap_values st)(a \<mapsto> v'), store := b,
                        calls := calls st @ [DoSave k]\<rparr>)"
proof -
  from live_SomeD [OF assms(1)] obtain c where c: "ctrl st a = Some c" "0 < use_count c"
    by auto
  show ?thesis
    using assms(2-4) c
    by (simp add: save_def saveInternal_def Let_def release_copy_shared [OF refl c])
qed

lemma save_True_D:
  assumes "live st v" and "save ad st k v = Inr (True, st')"
  shows "\<exists>a val v' b. v = Some a \<and> hasValidExtension ad k \<and> heap_values st a = Some val \<and>
           doSave ad k val (store st) = (True, v', b) \<and>
           st' = st\<lparr>m_cache := AList.update k
                           \<lparr>resource = Some a, requestReload = [], reloadDone = []\<rparr> (m_cache st),
                       heap_values := (heap_values st)(a \<mapsto> v'), store := b,
                       calls := calls st @ [DoSave k]\<rparr>"
proof -
  from live_SomeD [OF assms(1)] obtain a c where a: "v = Some a" "ctrl st a = Some c" "0 < use_count c"
    by auto
  have valid: "hasValidExtension ad k"
    using assms(2) by (auto simp: save_def saveInternal_def split: if_splits)
  obtain val where val: "heap_values st a = Some val"
    using assms(2) a valid by (auto simp: save_def saveInternal_def split: option.splits)
  obtain ok v' b where d: "doSave ad k val (store st) = (ok, v', b)"
    by (cases "doSave ad k val (store st)") auto
  from save_live_eq [OF assms(1) [unfolded a(1)] valid val d] assms(2) a(1)
  show ?thesis using valid val d by auto
qed

lemma load_after_miss:
  assumes valid: "hasValidExtension ad k"
    and miss: "\<forall>e. map_of (m_cache st) k = Some e \<longrightarrow> expired st (resource e)"
    and d: "doLoad ad k (default_value ad) (store st) = (ok, v, b)"
  shows "load ad st k =
           (if ok then
              (Some (next_addr st),
               st\<lparr>m_cache := AList.update k
                       \<lparr>resource = Some (next_addr st), requestReload = [], reloadDone = []\<rparr>
                       (AList.delete k (m_cache st)),
                  heap_values := (heap_values st)(next_addr st \<mapsto> v),
                  ctrl := (ctrl st)(next_addr st \<mapsto> \<lparr>use_count = 1, del = destroyData_deleter\<rparr>),
                  next_addr := Suc (next_addr st), store := b,
                  calls := calls st @ [DoLoad k]\<rparr>)
            else
              (None,
               st\<lparr>m_cache := AList.delete k (m_cache st),
                  heap_values := (heap_values st)(next_addr st := None),
                  next_addr := Suc (next_addr st), store := b,
                  calls := calls st @ [DoLoad k]\<rparr>))"
proof -
  have g2: "\<And>s. m_cache s = AList.delete k (m_cache st) \<Longrightarrow> getFromCache s k = (None, s)"
    by (simp add: getFromCache_def delete_conv')
  show ?thesis
    using valid d getFromCache_miss [OF miss]
    by (simp add: load_def loadInternal_def loadInternal_lookup_def loadInternal_backend_def
        make_unique_def delete_unique_def loadInternal_install_def Let_def g2)
qed

lemma load_backend_failure:
  assumes valid: "hasValidExtension ad k"
    and miss: "\<forall>e. map_of (m_cache st) k = Some e \<longrightarrow> expired st (resource e)"
    and fail: "\<not> fst (doLoad ad k (default_value ad) (store st))"
  shows "fst (load ad st k) = None \<and>
         m_cache (snd (load ad st k)) = AList.delete k (m_cache st)"
proof -
  obtain ok v b where d: "doLoad ad k (default_value ad) (store st) = (ok, v, b)"
    by (cases "doLoad ad k (default_value ad) (store st)") auto
  with fail have "\<not> ok" by simp
  then show ?thesis
    using valid d getFromCache_miss [OF miss]
    by (simp add: load_def loadInternal_def loadInternal_lookup_def loadInternal_backend_def
        make_unique_def delete_unique_def Let_def)
qed

lemma find_remove1_only:
  "length (filter P xs) = 1 \<Longrightarrow>
     (case find P xs of None \<Rightarrow> xs | Some p \<Rightarrow> remove1 p xs) = filter (\<lambda>x. \<not> P x) xs"
proof (induction xs)
  case Nil
  then show ?case by simp
next
  case (Cons x xs)
  show ?case
  proof (cases "P x")
    case True
    with Cons.prems have "filter P xs = []" by simp
    then have "filter (\<lambda>x. \<not> P x) xs = xs"
      by (simp add: filter_empty_conv)
    with True show ?thesis by simp
  next
    case False
    with Cons.prems have "length (filter P xs) = 1" by simp
    from Cons.IH [OF this] False show ?thesis
      by (auto split: option.splits dest: find_Some_iff [THEN iffD1])
  qed
qed

section \<open>The invariant of the cache\<close>

lemma cache_inv_empty: "cache_inv ad (empty_Factory b)"
  by (simp add: cache_inv_def empty_Factory_def)

lemma cache_inv_cong:
  assumes "cache_inv ad st" and "m_cache st' = m_cache st" and "next_addr st \<le> next_addr st'"
  shows "cache_inv ad st'"
  using assms by (fastforce simp: cache_inv_def list_all_iff split: option.splits)

lemma cache_inv_subset:
  assumes "cache_inv ad st" and "distinct (map fst (m_cache st'))"
    and "set (m_cache st') \<subseteq> set (m_cache st)" and "next_addr st \<le> next_addr st'"
  shows "cache_inv ad st'"
  using assms by (fastforce simp: cache_inv_def list_all_iff split: option.splits)

lemma cache_inv_entry:
  assumes "cache_inv ad st" and "map_of (m_cache st) k = Some e"
  shows "hasValidExtension ad k \<and> (\<exists>a. resource e = Some a \<and> a < next_addr st)"
proof -
  from assms(2) have "(k, e) \<in> set (m_cache st)" by (rule map_of_SomeD)
  with assms(1) show ?thesis
    by (auto simp: cache_inv_def list_all_iff split: option.splits)
qed

lemma distinct_fst_remove1: "distinct (map fst xs) \<Longrightarrow> distinct (map fst (remove1 p xs))"
proof (induction xs)
  case Nil
  then show ?case by simp
next
  case (Cons x xs)
  have "set (remove1 p xs) \<subseteq> set xs" by (rule set_remove1_subset)
  then have "fst ` set (remove1 p xs) \<subseteq> fst ` set xs" by blast
  with Cons show ?case by auto
qed

lemma destroyData_m_cache:
  "set (m_cache (destroyData st raw)) \<subseteq> set (m_cache st) \<and>
   (distinct (map fst (m_cache st)) \<longrightarrow> distinct (map fst (m_cache (destroyData st raw))))"
proof (cases "find (\<lambda>p. expired st (resource (snd p))) (m_cache st)")
  case None
  then show ?thesis by (simp add: destroyData_def)
next
  case (Some p)
  have "set (remove1 p (m_cache st)) \<subseteq> set (m_cache st)"
    by (rule set_remove1_subset)
  with Some show ?thesis by (simp add: destroyData_def distinct_fst_remove1)
qed

lemma cache_inv_destroyData: "cache_inv ad st \<Longrightarrow> cache_inv ad (destroyData st raw)"
proof -
  assume inv: "cache_inv ad st"
  show ?thesis
  proof (cases "find (\<lambda>p. expired st (resource (snd p))) (m_cache st)")
    case None
    then show ?thesis using inv by (simp add: destroyData_def)
  next
    case (Some p)
    have "distinct (map fst (remove1 p (m_cache st)))"
      using inv by (simp add: cache_inv_def distinct_fst_remove1)
    moreover have "set (remove1 p (m_cache st)) \<subseteq> set (m_cache st)"
      by (rule set_remove1_subset)
    ultimately show ?thesis
      using Some by (intro cache_inv_subset [OF inv]) (simp_all add: destroyData_def)
  qed
qed

lemma release_m_cache:
  "set (m_cache (release st h)) \<subseteq> set (m_cache st) \<and>
   (distinct (map fst (m_cache st)) \<longrightarrow> distinct (map fst (m_cache (release st h))))"
proof (cases h)
  case None
  then show ?thesis by (simp add: release_def)
next
  case (Some a)
  show ?thesis
  proof (cases "ctrl st a")
    case None
    with Some show ?thesis by (simp add: release_def)
  next
    case (Some c)
    let ?st' = "st\<lparr>ctrl := (ctrl st)(a \<mapsto> c\<lparr>use_count := use_count c - 1\<rparr>)\<rparr>"
    have d: "\<And>f. set (m_cache (destroyData (st\<lparr>ctrl := f\<rparr>) a)) \<subseteq> set (m_cache st) \<and>
             (distinct (map fst (m_cache st)) \<longrightarrow>
                distinct (map fst (m_cache (destroyData (st\<lparr>ctrl := f\<rparr>) a))))"
    proof -
      fix f
      show "set (m_cache (destroyData (st\<lparr>ctrl := f\<rparr>) a)) \<subseteq> set (m_cache st) \<and>
             (distinct (map fst (m_cache st)) \<longrightarrow>
                distinct (map fst (m_cache (destroyData (st\<lparr>ctrl := f\<rparr>) a))))"
        using destroyData_m_cache [of "st\<lparr>ctrl := f\<rparr>" a] by simp
    qed
    show ?thesis
      using \<open>h = Some a\<close> Some d
      by (cases "del c") (simp_all add: release_def Let_def)
  qed
qed

lemma cache_inv_release: "cache_inv ad st \<Longrightarrow> cache_inv ad (release st h)"
proof -
  assume inv: "cache_inv ad st"
  then have "distinct (map fst (m_cache st))" by (simp add: cache_inv_def)
  with release_m_cache [of st h]
  have "distinct (map fst (m_cache (release st h)))" "set (m_cache (release st h)) \<subseteq> set (m_cache st)"
    by simp_all
  then show ?thesis by (intro cache_inv_subset [OF inv]) simp_all
qed

lemma cache_inv_copy_shared: "cache_inv ad st \<Longrightarrow> cache_inv ad (copy_shared st h)"
  by (erule cache_inv_cong) simp_all

lemma cache_inv_make_shared: "cache_inv ad st \<Longrightarrow> cache_inv ad (snd (make_shared st v))"
  by (erule cache_inv_cong) (simp_all add: make_shared_def)

lemma cache_inv_registerUser: "cache_inv ad st \<Longrightarrow> cache_inv ad (registerUser st k u)"
proof -
  assume inv: "cache_inv ad st"
  let ?f = "\<lambda>(k', e). (k', e\<lparr>requestReload :=
                              removeAll u (requestReload e) @ (if k' = k then [u] else []),
                            reloadDone :=
                              removeAll u (reloadDone e) @ (if k' = k then [u] else [])\<rparr>)"
  have keys: "map fst (map ?f (m_cache st)) = map fst (m_cache st)"
    by (induction "m_cache st") (auto simp: case_prod_beta)
  have "cache_inv ad (st\<lparr>m_cache := map ?f (m_cache st)\<rparr>)"
    using inv unfolding cache_inv_def
    by (auto simp: keys list_all_iff case_prod_beta simp del: map_map split: option.splits)
  then show ?thesis using inv by (simp add: registerUser_def split: option.splits)
qed

lemma set_update_subset: "set (AList.update k v al) \<subseteq> insert (k, v) (set al)"
  by (induction al) auto

lemma cache_inv_update:
  assumes "cache_inv ad st" and "hasValidExtension ad k" and "a < n" and "next_addr st \<le> n"
    and "m_cache st' = AList.update k \<lparr>resource = Some a, requestReload = [], reloadDone = []\<rparr> (m_cache st)"
    and "next_addr st' = n"
  shows "cache_inv ad st'"
proof -
  have d: "distinct (map fst (m_cache st'))"
    using assms(1,5) by (simp add: cache_inv_def distinct_update)
  have "set (m_cache st') \<subseteq> insert (k, \<lparr>resource = Some a, requestReload = [], reloadDone = []\<rparr>) (set (m_cache st))"
    unfolding assms(5) by (rule set_update_subset)
  then show ?thesis
    using assms d by (fastforce simp: cache_inv_def list_all_iff split: option.splits)
qed

lemma cache_inv_delete:
  assumes "cache_inv ad st" and "m_cache st' = AList.delete k (m_cache st)"
    and "next_addr st \<le> next_addr st'"
  shows "cache_inv ad st'"
proof -
  have "distinct (map fst (m_cache st'))"
    using assms(1,2) by (simp add: cache_inv_def distinct_delete)
  moreover have "set (m_cache st') \<subseteq> set (m_cache st)"
    using assms(2) by (auto simp: AList.delete_eq)
  ultimately show ?thesis by (intro cache_inv_subset [OF assms(1)] assms(3))
qed

lemma cache_inv_load: 
  assumes inv: "cache_inv ad st"
  shows "cache_inv ad (snd (load ad st k))"
proof (cases "hasValidExtension ad k")
  case False
  then show ?thesis
    using inv by (simp add: load_def loadInternal_def loadInternal_lookup_def)
next
  case valid: True
  show ?thesis
  proof (cases "\<forall>e. map_of (m_cache st) k = Some e \<longrightarrow> expired st (resource e)")
    case False
    then obtain e where e: "map_of (m_cache st) k = Some e" "\<not> expired st (resource e)"
      by blast
    from getFromCache_live [OF e] obtain a c where
      "getFromCache st k =
         (Some a, st\<lparr>ctrl := (ctrl st)(a \<mapsto> c\<lparr>use_count := Suc (use_count c)\<rparr>)\<rparr>)"
      by blast
    then have "snd (load ad st k) = st\<lparr>ctrl := (ctrl st)(a \<mapsto> c\<lparr>use_count := Suc (use_count c)\<rparr>)\<rparr>"
      using valid by (simp add: load_def loadInternal_def loadInternal_lookup_def)
    then show ?thesis
      by (intro cache_inv_cong [OF inv]) simp_all
  next
    case miss: True
    obtain ok v b where d: "doLoad ad k (default_value ad) (store st) = (ok, v, b)"
      by (cases "doLoad ad k (default_value ad) (store st)") auto
    note l = load_after_miss [OF valid miss d]
    have del: "cache_inv ad (st\<lparr>m_cache := AList.delete k (m_cache st)\<rparr>)"
      by (rule cache_inv_delete [OF inv]) simp_all
    show ?thesis
    proof (cases ok)
      case True
      show ?thesis
        by (rule cache_inv_update [OF del valid, of "next_addr st" "Suc (next_addr st)"])
           (simp_all add: l True)
    next
      case False
      show ?thesis
        by (rule cache_inv_delete [OF inv, of _ k]) (simp_all add: l False)
    qed
  qed
qed

lemma cache_inv_save:
  assumes inv: "cache_inv ad st" and a: "a < next_addr st"
    and s: "save ad st k (Some a) = Inr (ok, st')"
  shows "cache_inv ad st'"
proof (cases "hasValidExtension ad k")
  case False
  with s have "st' = release (copy_shared st (Some a)) (Some a)"
    by (simp add: save_def saveInternal_def)
  then show ?thesis
    using inv by (simp add: cache_inv_release cache_inv_copy_shared)
next
  case valid: True
  from s valid obtain val where val: "heap_values st a = Some val"
    by (auto simp: save_def saveInternal_def split: option.splits)
  obtain ok' v' b where d: "doSave ad k val (store st) = (ok', v', b)"
    by (cases "doSave ad k val (store st)") auto
  let ?st1 = "(copy_shared st (Some a))\<lparr>heap_values := (heap_values st)(a \<mapsto> v'), store := b,
                                    calls := calls st @ [DoSave k]\<rparr>"
  have inv1: "cache_inv ad ?st1"
    by (rule cache_inv_cong [OF inv]) simp_all
  show ?thesis
  proof (cases ok')
    case False
    with s valid val d have "st' = release ?st1 (Some a)"
      by (simp add: save_def saveInternal_def Let_def)
    then show ?thesis using inv1 by (simp add: cache_inv_release)
  next
    case True
    let ?st2 = "?st1\<lparr>m_cache := AList.update k
                   \<lparr>resource = Some a, requestReload = [], reloadDone = []\<rparr> (m_cache ?st1)\<rparr>"
    have inv2: "cache_inv ad ?st2"
      by (rule cache_inv_update [OF inv1 valid, of a "next_addr st"]) (simp_all add: a)
    from True s valid val d have "st' = release ?st2 (Some a)"
      by (simp add: save_def saveInternal_def Let_def)
    then show ?thesis using inv2 by (simp add: cache_inv_release)
  qed
qed

section \<open>A race of two loads of one key\<close>

text \<open>
  Two threads load the same key on a cold cache. Each critical section is one step; both
  threads miss, both call the backend, the second thread installs its value first. The
  first thread then finds that entry, gets a handle to the same object and frees its own.
\<close>

lemma lookup_Continue:
  assumes "loadInternal_lookup ad s k = (Continue, s')"
  shows "map_of (m_cache s') k = None \<and> ctrl s' = ctrl s \<and> next_addr s' = next_addr s"
  using assms
  by (auto simp: loadInternal_lookup_def getFromCache_def lock_def expired_def delete_conv'
      split: if_splits option.splits prod.splits)

lemma backend_Some:
  assumes "loadInternal_backend ad s k = (Some u, s')"
  shows "u = next_addr s \<and> m_cache s' = m_cache s \<and> ctrl s' = ctrl s \<and>
         next_addr s' = Suc u \<and> heap_values s' u \<noteq> None \<and>
         (\<forall>a. a \<noteq> u \<longrightarrow> heap_values s' a = heap_values s a)"
  using assms
  by (auto simp: loadInternal_backend_def make_unique_def delete_unique_def Let_def
      split: prod.splits if_splits)

lemma install_absent:
  assumes "map_of (m_cache s) k = None"
  shows "loadInternal_install s k u =
           (Some u,
            s\<lparr>m_cache := AList.update k
                   \<lparr>resource = Some u, requestReload = [], reloadDone = []\<rparr> (m_cache s),
              ctrl := (ctrl s)(u \<mapsto> \<lparr>use_count = 1, del = destroyData_deleter\<rparr>)\<rparr>)"
  using assms by (simp add: loadInternal_install_def getFromCache_def Let_def)

lemma load_race_single_instance:
  assumes t1_lookup: "loadInternal_lookup ad s0 k = (Continue, s1)"
    and t2_lookup: "loadInternal_lookup ad s1 k = (Continue, s2)"
    and t1_backend: "loadInternal_backend ad s2 k = (Some u1, s3)"
    and t2_backend: "loadInternal_backend ad s3 k = (Some u2, s4)"
    and t2_install: "loadInternal_install s4 k u2 = (h2, s5)"
    and t1_install: "loadInternal_install s5 k u1 = (h1, s6)"
  shows "h2 = Some u2 \<and> h1 = Some u2 \<and> u1 \<noteq> u2 \<and>
         heap_values s6 u1 = None \<and> heap_values s6 u2 \<noteq> None \<and>
         map_of (m_cache s6) k =
           Some \<lparr>resource = Some u2, requestReload = [], reloadDone = []\<rparr>"
proof -
  from lookup_Continue [OF t2_lookup] have c2: "map_of (m_cache s2) k = None" by simp
  note b1 = backend_Some [OF t1_backend]
  note b2 = backend_Some [OF t2_backend]
  from b1 b2 have ne: "u1 \<noteq> u2" by simp
  from c2 b1 b2 have c4: "map_of (m_cache s4) k = None" by simp
  from install_absent [OF c4, of u2] t2_install have
    h2: "h2 = Some u2" and
    s5: "s5 = s4\<lparr>m_cache := AList.update k
                   \<lparr>resource = Some u2, requestReload = [], reloadDone = []\<rparr> (m_cache s4),
                 ctrl := (ctrl s4)(u2 \<mapsto> \<lparr>use_count = 1, del = destroyData_deleter\<rparr>)\<rparr>"
    by simp_all
  have e: "map_of (m_cache s5) k =
             Some \<lparr>resource = Some u2, requestReload = [], reloadDone = []\<rparr>"
    by (simp add: s5 update_conv')
  have live: "\<not> expired s5 (resource \<lparr>resource = Some u2, requestReload = [], reloadDone = []\<rparr>)"
    by (simp add: s5 expired_def)
  from getFromCache_live [OF e live] obtain c where
    g: "getFromCache s5 k =
          (Some u2, s5\<lparr>ctrl := (ctrl s5)(u2 \<mapsto> c\<lparr>use_count := Suc (use_count c)\<rparr>)\<rparr>)"
    by auto
  from g t1_install have h1: "h1 = Some u2" and
    s6: "s6 = delete_unique (s5\<lparr>ctrl := (ctrl s5)(u2 \<mapsto> c\<lparr>use_count := Suc (use_count c)\<rparr>)\<rparr>) u1"
    by (simp_all add: loadInternal_install_def)
  have "heap_values s4 u2 \<noteq> None" using b2 by blast
  then have "heap_values s6 u2 \<noteq> None" using ne by (simp add: s6 s5 delete_unique_def)
  moreover have "heap_values s6 u1 = None" by (simp add: s6 delete_unique_def)
  moreover have "map_of (m_cache s6) k =
           Some \<lparr>resource = Some u2, requestReload = [], reloadDone = []\<rparr>"
    using e by (simp add: s6 delete_unique_def)
  ultimately show ?thesis using h1 h2 ne by simp
qed

section \<open>The scenarios\<close>

lemma loaded_state_eq:
  "loaded_state =
     \<lparr>m_cache = [(''temp.txt'', \<lparr>resource = Some 0, requestReload = [], reloadDone = []\<rparr>)],
      heap_values = [0 \<mapsto> 42],
      ctrl = [0 \<mapsto> \<lparr>use_count = 1, del = destroyData_deleter\<rparr>],
      next_addr = 1, store = (), calls = [DoLoad ''temp.txt''], delivered = []\<rparr>"
  by (simp add: loaded_state_def load_def loadInternal_def empty_Factory_def
      loadInternal_lookup_def getFromCache_def loadInternal_backend_def make_unique_def
      loadInternal_install_def Let_def)

lemma registered_state_eq:
  "registered_state =
     \<lparr>m_cache = [(''temp.txt'', \<lparr>resource = Some 0, requestReload = [5], reloadDone = [5]\<rparr>)],
      heap_values = [0 \<mapsto> 42],
      ctrl = [0 \<mapsto> \<lparr>use_count = 1, del = destroyData_deleter\<rparr>],
      next_addr = 1, store = (), calls = [DoLoad ''temp.txt''], delivered = []\<rparr>"
  by (simp add: registered_state_def loaded_state_eq registerUser_def)


lemma handle_state_eq:
  "handle_state =
     \<lparr>m_cache = [], heap_values = [0 \<mapsto> 7],
      ctrl = [0 \<mapsto> \<lparr>use_count = 1, del = default_delete\<rparr>],
      next_addr = 1, store = (), calls = [], delivered = []\<rparr>"
  by (simp add: handle_state_def make_shared_def empty_Factory_def)

lemma dead_entry_state_eq:
  "dead_entry_state =
     \<lparr>m_cache = [(''temp.txt'', \<lparr>resource = Some 0, requestReload = [], reloadDone = []\<rparr>)],
      heap_values = Map.empty,
      ctrl = [0 \<mapsto> \<lparr>use_count = 0, del = default_delete\<rparr>],
      next_addr = 1, store = (),
      calls = [DoSave ''temp.txt''], delivered = []\<rparr>"
  by (simp add: dead_entry_state_def handle_state_eq save_def saveInternal_def
      copy_shared_def release_def Let_def)

lemma dead_entry_with_handle_eq:
  "dead_entry_with_handle =
     \<lparr>m_cache = [(''temp.txt'', \<lparr>resource = Some 0, requestReload = [], reloadDone = []\<rparr>)],
      heap_values = [1 \<mapsto> 9],
      ctrl = [0 \<mapsto> \<lparr>use_count = 0, del = default_delete\<rparr>,
              1 \<mapsto> \<lparr>use_count = 1, del = default_delete\<rparr>],
      next_addr = 2, store = (),
      calls = [DoSave ''temp.txt''], delivered = []\<rparr>"
  by (simp add: dead_entry_with_handle_def dead_entry_state_eq make_shared_def numeral_2_eq_2)

lemma mixed_state_eq:
  "mixed_state =
     \<lparr>m_cache = [(''temp.txt'', \<lparr>resource = Some 0, requestReload = [], reloadDone = []\<rparr>),
                 (''other.txt'', \<lparr>resource = Some 1, requestReload = [], reloadDone = []\<rparr>)],
      heap_values = [1 \<mapsto> 42],
      ctrl = [0 \<mapsto> \<lparr>use_count = 0, del = default_delete\<rparr>,
              1 \<mapsto> \<lparr>use_count = 1, del = destroyData_deleter\<rparr>],
      next_addr = 2, store = (),
      calls = [DoSave ''temp.txt'', DoLoad ''other.txt''], delivered = []\<rparr>"
  by (simp add: mixed_state_def dead_entry_state_eq load_def loadInternal_def
      loadInternal_lookup_def getFromCache_def loadInternal_backend_def make_unique_def
      loadInternal_install_def Let_def numeral_2_eq_2)

section \<open>The children of a sequence\<close>

lemma initFromData_loop_length:
  "length (initFromData_loop rs objs) = length objs + length rs"
  by (induction rs arbitrary: objs) (simp_all add: Let_def)

lemma initFromData_loop_nth_old:
  "i < length objs \<Longrightarrow> initFromData_loop rs objs ! i = objs ! i"
proof (induction rs arbitrary: objs)
  case Nil
  then show ?case by simp
next
  case (Cons r rs)
  then show ?case by (simp add: Let_def nth_append)
qed

lemma initFromData_loop_nth_new:
  "i < length rs \<Longrightarrow>
     initFromData_loop rs objs ! (length objs + i) =
       (case rs ! i of
          ObjectData n \<Rightarrow> None
        | ModelObjectData n p \<Rightarrow> Some \<lparr>m_data = rs ! i, m_wrapped = None\<rparr>)"
proof (induction rs arbitrary: objs i)
  case Nil
  then show ?case by simp
next
  case (Cons r rs)
  show ?case
  proof (cases i)
    case 0
    have "initFromData_loop (r # rs) objs ! length objs =
            (objs @ [case runtime_cast_ModelObjectData r of
                       Some d \<Rightarrow> Some (createModel d) | None \<Rightarrow> None]) ! length objs"
      by (simp add: Let_def initFromData_loop_nth_old)
    with 0 show ?thesis
      by (simp add: runtime_cast_ModelObjectData_def createModel_def split: ObjectData.splits)
  next
    case (Suc j)
    with Cons.prems have j: "j < length rs" by simp
    from Cons.IH [OF j, of "objs @ [case runtime_cast_ModelObjectData r of
                       Some d \<Rightarrow> Some (createModel d) | None \<Rightarrow> None]"]
    show ?thesis using Suc by (simp add: Let_def split: ObjectData.splits)
  qed
qed

section \<open>The second lookup of a load\<close>



section \<open>Dead entries\<close>

text \<open>
  C2 as amended: in a cache that satisfies \<open>cache_inv\<close>, let the entry of key \<open>k\<close> be
  dead. Then the lookup erases it; \<open>load k\<close> calls the backend, returns a handle that is
  not the old entry's (the new object, or the empty handle when the backend fails), and
  leaves for \<open>k\<close> either no entry or the entry of the new object; and a \<open>save\<close> for
  \<open>k\<close> that succeeds, with a handle the caller holds, replaces the dead entry by a live
  one for that handle. Nothing is said about a save that fails.
\<close>

theorem C2_dead_entry_not_returned:
  assumes "cache_inv ad st" and "map_of (m_cache st) k = Some e" and "expired st (resource e)"
  shows "m_cache (snd (getFromCache st k)) = AList.delete k (m_cache st) \<and>
         fst (load ad st k) \<noteq> resource e \<and>
         calls (snd (load ad st k)) = calls st @ [DoLoad k] \<and>
         map_of (m_cache (snd (load ad st k))) k =
           (case fst (load ad st k) of
              None \<Rightarrow> None
            | Some u \<Rightarrow> Some \<lparr>resource = Some u, requestReload = [], reloadDone = []\<rparr>) \<and>
         (\<forall>v st'. live st v \<and> save ad st k v = Inr (True, st') \<longrightarrow>
            map_of (m_cache st') k = Some \<lparr>resource = v, requestReload = [], reloadDone = []\<rparr> \<and>
            live st' v)"
proof -
  from cache_inv_entry [OF assms(1,2)] obtain a where
    valid: "hasValidExtension ad k" and a: "resource e = Some a" "a < next_addr st"
    by blast
  have miss: "\<forall>e. map_of (m_cache st) k = Some e \<longrightarrow> expired st (resource e)"
    using assms(2,3) by simp
  obtain ok v b where d: "doLoad ad k (default_value ad) (store st) = (ok, v, b)"
    by (cases "doLoad ad k (default_value ad) (store st)") auto
  note l = load_after_miss [OF valid miss d]
  have 1: "m_cache (snd (getFromCache st k)) = AList.delete k (m_cache st)"
    using getFromCache_miss [OF miss] by simp
  have 2: "fst (load ad st k) \<noteq> resource e"
    using l a by (cases ok) auto
  have 3: "calls (snd (load ad st k)) = calls st @ [DoLoad k]"
    using l by (cases ok) auto
  have 4: "map_of (m_cache (snd (load ad st k))) k =
           (case fst (load ad st k) of
              None \<Rightarrow> None
            | Some u \<Rightarrow> Some \<lparr>resource = Some u, requestReload = [], reloadDone = []\<rparr>)"
    using l by (cases ok) (auto simp: update_conv' delete_conv')
  have 5: "\<forall>v st'. live st v \<and> save ad st k v = Inr (True, st') \<longrightarrow>
            map_of (m_cache st') k = Some \<lparr>resource = v, requestReload = [], reloadDone = []\<rparr> \<and>
            live st' v"
  proof (intro allI impI)
    fix v st'
    assume h: "live st v \<and> save ad st k v = Inr (True, st')"
    from save_True_D [of st v ad k st'] h obtain a' val v' b' where
      v: "v = Some a'" and
      st': "st' = st\<lparr>m_cache := AList.update k
                           \<lparr>resource = Some a', requestReload = [], reloadDone = []\<rparr> (m_cache st),
                       heap_values := (heap_values st)(a' \<mapsto> v'), store := b',
                       calls := calls st @ [DoSave k]\<rparr>"
      by blast
    have "expired st' v = expired st v"
      by (rule expired_ctrl_eq) (simp add: st')
    with h show "map_of (m_cache st') k =
                   Some \<lparr>resource = v, requestReload = [], reloadDone = []\<rparr> \<and> live st' v"
      by (simp add: st' v update_conv' live_def)
  qed
  from 1 2 3 4 5 show ?thesis by blast
qed

text \<open>C2 as amended, at \<open>dead_entry_state\<close>.\<close>

theorem C2_dead_entry_not_returned_witness:
  "cache_inv (stub_adapter True True) dead_entry_state \<and>
   map_of (m_cache dead_entry_state) ''temp.txt'' =
     Some \<lparr>resource = Some 0, requestReload = [], reloadDone = []\<rparr> \<and>
   expired dead_entry_state (Some 0) \<and>
   fst (load (stub_adapter True True) dead_entry_state ''temp.txt'') \<noteq> Some 0 \<and>
   calls (snd (load (stub_adapter True True) dead_entry_state ''temp.txt'')) =
     calls dead_entry_state @ [DoLoad ''temp.txt'']"
proof -
  have i: "cache_inv (stub_adapter True True) dead_entry_state"
    by (simp add: cache_inv_def dead_entry_state_eq)
  have e: "map_of (m_cache dead_entry_state) ''temp.txt'' =
             Some \<lparr>resource = Some 0, requestReload = [], reloadDone = []\<rparr>"
    by (simp add: dead_entry_state_eq)
  have x: "expired dead_entry_state
             (resource \<lparr>resource = Some 0, requestReload = [], reloadDone = []\<rparr>)"
    by (simp add: dead_entry_state_eq expired_def)
  show ?thesis
    using i e x C2_dead_entry_not_returned [OF i e x] by simp
qed

text \<open>
  C2 as stated fails for a save that the backend rejects: \<^verbatim>\<open>saveInternal\<close> returns at
  line 200 before it touches the map, so the dead entry of the key is still there, and
  still dead, after this save for the key.
\<close>

theorem C2_failed_save_keeps_dead_entry_counterexample:
  "map_of (m_cache dead_entry_with_handle) ''temp.txt'' =
     Some \<lparr>resource = Some 0, requestReload = [], reloadDone = []\<rparr> \<and>
   expired dead_entry_with_handle (Some 0) \<and>
   live dead_entry_with_handle (Some 1) \<and>
   save (stub_adapter True False) dead_entry_with_handle ''temp.txt'' (Some 1) =
     Inr (False, dead_entry_with_handle\<lparr>calls := [DoSave ''temp.txt'', DoSave ''temp.txt'']\<rparr>) \<and>
   map_of (m_cache (dead_entry_with_handle\<lparr>calls := [DoSave ''temp.txt'', DoSave ''temp.txt'']\<rparr>))
       ''temp.txt'' =
     Some \<lparr>resource = Some 0, requestReload = [], reloadDone = []\<rparr> \<and>
   expired (dead_entry_with_handle\<lparr>calls := [DoSave ''temp.txt'', DoSave ''temp.txt'']\<rparr>) (Some 0)"
  by (simp add: dead_entry_with_handle_eq expired_def live_def save_def saveInternal_def
      copy_shared_def release_def Let_def)

section \<open>The deleter\<close>

text \<open>
  C3: the object of a loaded value after its only handle has been released. The deleter
  that \<^verbatim>\<open>loadInternal\<close> wires to the handle is \<^verbatim>\<open>destroyData\<close>, which erases the
  cache entry and never deletes the pointer it is given: the entry is gone, the weak
  pointer is expired, and the value \<open>42\<close> is still allocated.
\<close>

theorem C3_released_value_stays_allocated:
  "fst (load (stub_adapter True True) (empty_Factory ()) ''temp.txt'') = Some 0 \<and>
   ctrl loaded_state 0 = Some \<lparr>use_count = 1, del = destroyData_deleter\<rparr> \<and>
   expired (release loaded_state (Some 0)) (Some 0) \<and>
   m_cache (release loaded_state (Some 0)) = [] \<and>
   heap_values (release loaded_state (Some 0)) 0 = Some 42"
proof -
  have "fst (load (stub_adapter True True) (empty_Factory ()) ''temp.txt'') = Some 0"
    by (simp add: load_def loadInternal_def empty_Factory_def
      loadInternal_lookup_def getFromCache_def loadInternal_backend_def make_unique_def
      loadInternal_install_def Let_def)
  moreover have "release loaded_state (Some 0) =
     \<lparr>m_cache = [], heap_values = [0 \<mapsto> 42],
      ctrl = [0 \<mapsto> \<lparr>use_count = 0, del = destroyData_deleter\<rparr>],
      next_addr = 1, store = (), calls = [DoLoad ''temp.txt''], delivered = []\<rparr>"
    by (simp add: loaded_state_eq release_def destroyData_def expired_def Let_def)
  ultimately show ?thesis
    by (simp add: loaded_state_eq expired_def)
qed

text \<open>
  The general fact behind it, and the contrast: a handle with the default deleter frees
  its object when the last reference goes.
\<close>

lemma release_destroyData_keeps_value:
  assumes "ctrl st a = Some c" and "del c = destroyData_deleter"
  shows "heap_values (release st (Some a)) = heap_values st"
  using assms by (simp add: release_def Let_def)

lemma release_default_delete_frees_value:
  assumes "ctrl st a = Some c" and "del c = default_delete" and "use_count c = 1"
  shows "heap_values (release st (Some a)) a = None"
  using assms by (simp add: release_def Let_def)

text \<open>
  C4: in a state with exactly one dead entry, \<^verbatim>\<open>destroyData\<close> leaves the cache with
  exactly the entries that are not dead, in their order and with their contents: the dead
  entry is removed and every other entry is unchanged.
\<close>

theorem C4_cleanup_removes_the_dead_entry:
  assumes "length (filter (\<lambda>p. expired st (resource (snd p))) (m_cache st)) = 1"
  shows "m_cache (destroyData st raw) =
           filter (\<lambda>p. \<not> expired st (resource (snd p))) (m_cache st)"
  using find_remove1_only [OF assms]
  by (auto simp: destroyData_def split: option.splits)

text \<open>
  C4 at \<open>mixed_state\<close>: the dead entry of \<^verbatim>\<open>temp.txt\<close> goes, the live entry of
  \<^verbatim>\<open>other.txt\<close> stays.
\<close>

theorem C4_cleanup_removes_the_dead_entry_witness:
  "length (filter (\<lambda>p. expired mixed_state (resource (snd p))) (m_cache mixed_state)) = 1 \<and>
   m_cache mixed_state =
     [(''temp.txt'', \<lparr>resource = Some 0, requestReload = [], reloadDone = []\<rparr>),
      (''other.txt'', \<lparr>resource = Some 1, requestReload = [], reloadDone = []\<rparr>)] \<and>
   m_cache (destroyData mixed_state 0) =
     [(''other.txt'', \<lparr>resource = Some 1, requestReload = [], reloadDone = []\<rparr>)]"
proof -
  have h: "length (filter (\<lambda>p. expired mixed_state (resource (snd p))) (m_cache mixed_state)) = 1"
    by (simp add: mixed_state_eq expired_def)
  show ?thesis
    using h C4_cleanup_removes_the_dead_entry [OF h, of 0]
    by (simp add: mixed_state_eq expired_def)
qed

section \<open>Saving\<close>

text \<open>
  C5: if \<open>save k v\<close> succeeds for a handle \<open>v\<close> that the caller holds, the entry of \<open>k\<close>
  is a weak pointer to the object of \<open>v\<close>, and a \<open>load k\<close> that follows returns that same
  object; it makes no backend call and changes neither the backing store, the objects nor
  the cache.
\<close>

theorem C5_save_then_load_same_instance:
  assumes "live st v" and "save ad st k v = Inr (True, st')"
  shows "map_of (m_cache st') k = Some \<lparr>resource = v, requestReload = [], reloadDone = []\<rparr> \<and>
         live st' v \<and>
         fst (load ad st' k) = v \<and>
         calls (snd (load ad st' k)) = calls st' \<and>
         store (snd (load ad st' k)) = store st' \<and>
         heap_values (snd (load ad st' k)) = heap_values st' \<and>
         m_cache (snd (load ad st' k)) = m_cache st'"
proof -
  from save_True_D [OF assms] obtain a val v' b where
    a: "v = Some a" and valid: "hasValidExtension ad k" and
    st': "st' = st\<lparr>m_cache := AList.update k
                           \<lparr>resource = Some a, requestReload = [], reloadDone = []\<rparr> (m_cache st),
                       heap_values := (heap_values st)(a \<mapsto> v'), store := b,
                       calls := calls st @ [DoSave k]\<rparr>"
    by blast
  have entry: "map_of (m_cache st') k = Some \<lparr>resource = v, requestReload = [], reloadDone = []\<rparr>"
    by (simp add: st' a update_conv')
  have "expired st' v = expired st v"
    by (rule expired_ctrl_eq) (simp add: st')
  then have lv: "live st' v"
    using assms(1) by (simp add: live_def)
  then have ne: "\<not> expired st' (resource \<lparr>resource = v, requestReload = [], reloadDone = []\<rparr>)"
    by (simp add: live_def)
  from getFromCache_live [OF entry ne] obtain c where
    g: "getFromCache st' k =
          (Some a, st'\<lparr>ctrl := (ctrl st')(a \<mapsto> c\<lparr>use_count := Suc (use_count c)\<rparr>)\<rparr>)"
    by (auto simp: a)
  have "load ad st' k =
          (Some a, st'\<lparr>ctrl := (ctrl st')(a \<mapsto> c\<lparr>use_count := Suc (use_count c)\<rparr>)\<rparr>)"
    using valid g by (simp add: load_def loadInternal_def loadInternal_lookup_def)
  with entry lv a show ?thesis by simp
qed

text \<open>C5 at \<open>handle_state\<close>: the client object \<open>0\<close> is saved and then loaded.\<close>

theorem C5_save_then_load_same_instance_witness:
  "live handle_state (Some 0) \<and>
   save (stub_adapter True True) handle_state ''temp.txt'' (Some 0) =
     Inr (True, handle_state\<lparr>m_cache :=
            [(''temp.txt'', \<lparr>resource = Some 0, requestReload = [], reloadDone = []\<rparr>)],
          calls := [DoSave ''temp.txt'']\<rparr>) \<and>
   fst (load (stub_adapter True True)
          (handle_state\<lparr>m_cache :=
            [(''temp.txt'', \<lparr>resource = Some 0, requestReload = [], reloadDone = []\<rparr>)],
          calls := [DoSave ''temp.txt'']\<rparr>) ''temp.txt'') = Some 0 \<and>
   calls (snd (load (stub_adapter True True)
          (handle_state\<lparr>m_cache :=
            [(''temp.txt'', \<lparr>resource = Some 0, requestReload = [], reloadDone = []\<rparr>)],
          calls := [DoSave ''temp.txt'']\<rparr>) ''temp.txt'')) = [DoSave ''temp.txt'']"
proof -
  have l: "live handle_state (Some 0)"
    by (simp add: handle_state_eq live_def expired_def)
  have s: "save (stub_adapter True True) handle_state ''temp.txt'' (Some 0) =
     Inr (True, handle_state\<lparr>m_cache :=
            [(''temp.txt'', \<lparr>resource = Some 0, requestReload = [], reloadDone = []\<rparr>)],
          calls := [DoSave ''temp.txt'']\<rparr>)"
    by (simp add: handle_state_eq save_def saveInternal_def copy_shared_def release_def Let_def)
  show ?thesis
    using l s C5_save_then_load_same_instance [OF l s] by simp
qed

section \<open>Reloading a sequence\<close>

text \<open>
  C6: a sequence whose children are named \<^verbatim>\<open>A\<close> and \<^verbatim>\<open>B\<close>, reloaded against new data
  with the model records \<^verbatim>\<open>B\<close>, \<^verbatim>\<open>A\<close>, \<^verbatim>\<open>C\<close>. \<open>prepareReload\<close> captures the wrapper
  of each child under its name; after \<open>reloadFromData\<close> the new child \<^verbatim>\<open>A\<close> (second)
  has the wrapper that the old child \<^verbatim>\<open>A\<close> (first) had, the new child \<^verbatim>\<open>B\<close> has that
  of the old \<^verbatim>\<open>B\<close>, the new child \<^verbatim>\<open>C\<close> has none, each child refers to its new record,
  and the sequence refers to the new data.
\<close>

theorem C6_reload_reassociates_state_by_name:
  assumes "m_objects seq = [Some ca, Some cb]"
    and "name (m_data ca) = ''A''" and "name (m_data cb) = ''B''"
    and "heap p = Some d"
    and "objects d = [ModelObjectData ''B'' pb, ModelObjectData ''A'' pa, ModelObjectData ''C'' pc]"
  shows "prepareReload seq =
           Inr [''A'' \<mapsto> ModelObjectInstanceIntermediateData (m_wrapped ca),
                ''B'' \<mapsto> ModelObjectInstanceIntermediateData (m_wrapped cb)] \<and>
         reloadFromData heap seq
             [''A'' \<mapsto> ModelObjectInstanceIntermediateData (m_wrapped ca),
              ''B'' \<mapsto> ModelObjectInstanceIntermediateData (m_wrapped cb)] (Some p) =
           Inr \<lparr>m_data_Sequence = Some p,
                m_objects =
                  [Some \<lparr>m_data = ModelObjectData ''B'' pb, m_wrapped = m_wrapped cb\<rparr>,
                   Some \<lparr>m_data = ModelObjectData ''A'' pa, m_wrapped = m_wrapped ca\<rparr>,
                   Some \<lparr>m_data = ModelObjectData ''C'' pc, m_wrapped = None\<rparr>]\<rparr>"
proof -
  have prep: "prepareReload seq =
           Inr [''A'' \<mapsto> ModelObjectInstanceIntermediateData (m_wrapped ca),
                ''B'' \<mapsto> ModelObjectInstanceIntermediateData (m_wrapped cb)]"
    using assms(1-3) by (simp add: prepareReload_def ModelObjectInstance_prepareReload_def)
  have init: "initFromData d =
                [Some \<lparr>m_data = ModelObjectData ''B'' pb, m_wrapped = None\<rparr>,
                 Some \<lparr>m_data = ModelObjectData ''A'' pa, m_wrapped = None\<rparr>,
                 Some \<lparr>m_data = ModelObjectData ''C'' pc, m_wrapped = None\<rparr>]"
    using assms(5)
    by (simp add: initFromData_def runtime_cast_ModelObjectData_def createModel_def)
  have loop: "reloadFromData_loop
                [''A'' \<mapsto> ModelObjectInstanceIntermediateData (m_wrapped ca),
                 ''B'' \<mapsto> ModelObjectInstanceIntermediateData (m_wrapped cb)] d 0
                [Some \<lparr>m_data = ModelObjectData ''B'' pb, m_wrapped = None\<rparr>,
                 Some \<lparr>m_data = ModelObjectData ''A'' pa, m_wrapped = None\<rparr>,
                 Some \<lparr>m_data = ModelObjectData ''C'' pc, m_wrapped = None\<rparr>] =
              Inr [Some \<lparr>m_data = ModelObjectData ''B'' pb, m_wrapped = m_wrapped cb\<rparr>,
                   Some \<lparr>m_data = ModelObjectData ''A'' pa, m_wrapped = m_wrapped ca\<rparr>,
                   Some \<lparr>m_data = ModelObjectData ''C'' pc, m_wrapped = None\<rparr>]"
    using assms(5) by (simp add: ModelObjectInstance_reloadFromData_def)
  show ?thesis
    using prep init loop assms(4) by (simp add: reloadFromData_def)
qed

text \<open>C6 with the wrappers \<open>10\<close> and \<open>11\<close>.\<close>

theorem C6_reload_reassociates_state_by_name_witness:
  "prepareReload
     \<lparr>m_data_Sequence = Some 0,
      m_objects = [Some \<lparr>m_data = ModelObjectData ''A'' [1], m_wrapped = Some 10\<rparr>,
                   Some \<lparr>m_data = ModelObjectData ''B'' [2], m_wrapped = Some 11\<rparr>]\<rparr> =
     Inr [''A'' \<mapsto> ModelObjectInstanceIntermediateData (Some 10),
          ''B'' \<mapsto> ModelObjectInstanceIntermediateData (Some 11)] \<and>
   reloadFromData
     [1 \<mapsto> \<lparr>objects = [ModelObjectData ''B'' [3], ModelObjectData ''A'' [4],
                          ModelObjectData ''C'' [5]], duration = 0\<rparr>]
     \<lparr>m_data_Sequence = Some 0,
      m_objects = [Some \<lparr>m_data = ModelObjectData ''A'' [1], m_wrapped = Some 10\<rparr>,
                   Some \<lparr>m_data = ModelObjectData ''B'' [2], m_wrapped = Some 11\<rparr>]\<rparr>
     [''A'' \<mapsto> ModelObjectInstanceIntermediateData (Some 10),
      ''B'' \<mapsto> ModelObjectInstanceIntermediateData (Some 11)] (Some 1) =
     Inr \<lparr>m_data_Sequence = Some 1,
          m_objects =
            [Some \<lparr>m_data = ModelObjectData ''B'' [3], m_wrapped = Some 11\<rparr>,
             Some \<lparr>m_data = ModelObjectData ''A'' [4], m_wrapped = Some 10\<rparr>,
             Some \<lparr>m_data = ModelObjectData ''C'' [5], m_wrapped = None\<rparr>]\<rparr>"
  using C6_reload_reassociates_state_by_name
    [of "\<lparr>m_data_Sequence = Some 0,
      m_objects = [Some \<lparr>m_data = ModelObjectData ''A'' [1], m_wrapped = Some 10\<rparr>,
                   Some \<lparr>m_data = ModelObjectData ''B'' [2], m_wrapped = Some 11\<rparr>]\<rparr>"
        "\<lparr>m_data = ModelObjectData ''A'' [1], m_wrapped = Some 10\<rparr>"
        "\<lparr>m_data = ModelObjectData ''B'' [2], m_wrapped = Some 11\<rparr>"
        "[1 \<mapsto> \<lparr>objects = [ModelObjectData ''B'' [3], ModelObjectData ''A'' [4],
                          ModelObjectData ''C'' [5]], duration = 0\<rparr>]"
        1
        "\<lparr>objects = [ModelObjectData ''B'' [3], ModelObjectData ''A'' [4],
                          ModelObjectData ''C'' [5]], duration = 0\<rparr>"
        "[3]" "[4]" "[5]"]
  by simp

text \<open>
  C7 as amended: after \<open>initFromData\<close> the child list has one element per record, in the
  order of the records: a new instance that refers to the record, with no wrapper bound,
  for a \<^verbatim>\<open>ModelObjectData\<close>, and the empty pointer for a record of any other runtime
  type. No record is skipped.
\<close>

theorem C7_one_child_slot_per_record:
  "length (initFromData data) = length (objects data) \<and>
   (\<forall>i < length (objects data).
      initFromData data ! i =
        (case objects data ! i of
           ObjectData n \<Rightarrow> None
         | ModelObjectData n p \<Rightarrow> Some \<lparr>m_data = objects data ! i, m_wrapped = None\<rparr>))"
  using initFromData_loop_nth_new [of _ "objects data" "[]"]
  by (simp add: initFromData_def initFromData_loop_length)

text \<open>C7 as amended, on one unrecognized and one recognized record.\<close>

theorem C7_one_child_slot_per_record_witness:
  "length (initFromData \<lparr>objects = [ObjectData ''X'', ModelObjectData ''M'' [1, 255]], duration = 0\<rparr>) = 2 \<and>
   initFromData \<lparr>objects = [ObjectData ''X'', ModelObjectData ''M'' [1, 255]], duration = 0\<rparr> ! 0 = None \<and>
   initFromData \<lparr>objects = [ObjectData ''X'', ModelObjectData ''M'' [1, 255]], duration = 0\<rparr> ! 1 =
     Some \<lparr>m_data = ModelObjectData ''M'' [1, 255], m_wrapped = None\<rparr>"
  using C7_one_child_slot_per_record
          [of "\<lparr>objects = [ObjectData ''X'', ModelObjectData ''M'' [1, 255]], duration = 0\<rparr>"]
  by simp

text \<open>
  C7 as stated fails: a single record of the unrecognized type \<^verbatim>\<open>ObjectData\<close> gives a
  child list of length one, whose element is the empty pointer and not a constructed
  instance.
\<close>

theorem C7_unrecognized_record_counterexample:
  "initFromData \<lparr>objects = [ObjectData ''X''], duration = 0\<rparr> = [None] \<and>
   length (initFromData \<lparr>objects = [ObjectData ''X''], duration = 0\<rparr>) = 1"
  by (simp add: initFromData_def runtime_cast_ModelObjectData_def)

section \<open>Backend failures\<close>

text \<open>
  C8 as amended. If the key is valid, has no live entry, and \<^verbatim>\<open>doLoad\<close> fails, then
  \<open>load\<close> returns the empty handle and the cache is the one before the call without the
  entry of the key: unchanged when the key had no entry, and otherwise without the dead
  entry that the lookup erased. If the key is valid and \<^verbatim>\<open>doSave\<close> fails on the object
  of a handle that the caller holds, then \<open>save\<close> returns false and the cache is
  unchanged. In neither case is an entry installed or modified.
\<close>

theorem C8_backend_failure_leaves_no_partial_entry:
  "(hasValidExtension ad k \<and>
    (\<forall>e. map_of (m_cache st) k = Some e \<longrightarrow> expired st (resource e)) \<and>
    \<not> fst (doLoad ad k (default_value ad) (store st)) \<longrightarrow>
      fst (load ad st k) = None \<and>
      m_cache (snd (load ad st k)) =
        (if map_of (m_cache st) k = None then m_cache st else AList.delete k (m_cache st))) \<and>
   (hasValidExtension ad k \<and> live st (Some a) \<and> heap_values st a = Some val \<and>
    \<not> fst (doSave ad k val (store st)) \<longrightarrow>
      (\<exists>st'. save ad st k (Some a) = Inr (False, st') \<and> m_cache st' = m_cache st))"
proof (intro conjI impI)
  assume h: "hasValidExtension ad k \<and>
    (\<forall>e. map_of (m_cache st) k = Some e \<longrightarrow> expired st (resource e)) \<and>
    \<not> fst (doLoad ad k (default_value ad) (store st))"
  then have r: "fst (load ad st k) = None \<and>
         m_cache (snd (load ad st k)) = AList.delete k (m_cache st)"
    using load_backend_failure by blast
  from r show "fst (load ad st k) = None" by simp
  have "map_of (m_cache st) k = None \<Longrightarrow> AList.delete k (m_cache st) = m_cache st"
    by (simp add: map_of_eq_None_iff)
  with r show "m_cache (snd (load ad st k)) =
        (if map_of (m_cache st) k = None then m_cache st else AList.delete k (m_cache st))"
    by simp
next
  assume h: "hasValidExtension ad k \<and> live st (Some a) \<and> heap_values st a = Some val \<and>
    \<not> fst (doSave ad k val (store st))"
  obtain ok v' b where d: "doSave ad k val (store st) = (ok, v', b)"
    by (cases "doSave ad k val (store st)") auto
  with h have "\<not> ok" by simp
  with h d save_live_eq [of st a ad k val ok v' b]
  show "\<exists>st'. save ad st k (Some a) = Inr (False, st') \<and> m_cache st' = m_cache st"
    by simp
qed

text \<open>C8 as amended, at \<open>dead_entry_with_handle\<close> with a backend that always fails.\<close>

theorem C8_backend_failure_leaves_no_partial_entry_witness:
  "hasValidExtension (stub_adapter False False) ''temp.txt'' \<and>
   live dead_entry_with_handle (Some 1) \<and>
   heap_values dead_entry_with_handle 1 = Some 9 \<and>
   fst (load (stub_adapter False False) dead_entry_with_handle ''temp.txt'') = None \<and>
   m_cache (snd (load (stub_adapter False False) dead_entry_with_handle ''temp.txt'')) = [] \<and>
   (\<exists>st'. save (stub_adapter False False) dead_entry_with_handle ''temp.txt'' (Some 1) =
             Inr (False, st') \<and>
          m_cache st' = m_cache dead_entry_with_handle)"
proof -
  have v: "hasValidExtension (stub_adapter False False) ''temp.txt''" by simp
  have m: "\<forall>e. map_of (m_cache dead_entry_with_handle) ''temp.txt'' = Some e \<longrightarrow>
             expired dead_entry_with_handle (resource e)"
    by (simp add: dead_entry_with_handle_eq expired_def)
  have f: "\<not> fst (doLoad (stub_adapter False False) ''temp.txt''
                   (default_value (stub_adapter False False)) (store dead_entry_with_handle))"
    by simp
  have l: "live dead_entry_with_handle (Some 1)"
    by (simp add: dead_entry_with_handle_eq live_def expired_def)
  have h: "heap_values dead_entry_with_handle 1 = Some 9"
    by (simp add: dead_entry_with_handle_eq)
  have g: "\<not> fst (doSave (stub_adapter False False) ''temp.txt'' 9 (store dead_entry_with_handle))"
    by simp
  have c: "map_of (m_cache dead_entry_with_handle) ''temp.txt'' =
             Some \<lparr>resource = Some 0, requestReload = [], reloadDone = []\<rparr>"
    "AList.delete ''temp.txt'' (m_cache dead_entry_with_handle) = []"
    by (simp_all add: dead_entry_with_handle_eq)
  note t = C8_backend_failure_leaves_no_partial_entry
             [of "stub_adapter False False" "''temp.txt''" dead_entry_with_handle 1 9]
  from t v m f have
    "fst (load (stub_adapter False False) dead_entry_with_handle ''temp.txt'') = None \<and>
     m_cache (snd (load (stub_adapter False False) dead_entry_with_handle ''temp.txt'')) =
       (if map_of (m_cache dead_entry_with_handle) ''temp.txt'' = None
        then m_cache dead_entry_with_handle
        else AList.delete ''temp.txt'' (m_cache dead_entry_with_handle))"
    by blast
  with c have ld:
    "fst (load (stub_adapter False False) dead_entry_with_handle ''temp.txt'') = None \<and>
     m_cache (snd (load (stub_adapter False False) dead_entry_with_handle ''temp.txt'')) = []"
    by simp
  from t v l h g have sv:
    "\<exists>st'. save (stub_adapter False False) dead_entry_with_handle ''temp.txt'' (Some 1) =
             Inr (False, st') \<and>
          m_cache st' = m_cache dead_entry_with_handle"
    by blast
  from v l h ld sv show ?thesis by blast
qed

text \<open>
  C8 as stated fails for a load: with a dead entry for the key and a failing backend load,
  the cache after the call is empty and so differs from the cache before it.
\<close>

theorem C8_failed_load_erases_dead_entry_counterexample:
  "\<not> fst (doLoad (stub_adapter False True) ''temp.txt'' 0 ()) \<and>
   fst (load (stub_adapter False True) dead_entry_state ''temp.txt'') = None \<and>
   m_cache dead_entry_state =
     [(''temp.txt'', \<lparr>resource = Some 0, requestReload = [], reloadDone = []\<rparr>)] \<and>
   m_cache (snd (load (stub_adapter False True) dead_entry_state ''temp.txt'')) = [] \<and>
   m_cache (snd (load (stub_adapter False True) dead_entry_state ''temp.txt'')) \<noteq>
     m_cache dead_entry_state"
  by (simp add: dead_entry_state_eq load_def loadInternal_def
      loadInternal_lookup_def getFromCache_def expired_def loadInternal_backend_def
      make_unique_def delete_unique_def Let_def)

section \<open>Saving and the channels\<close>

text \<open>
  C9: a \<open>save k v\<close> that succeeds, for a handle the caller holds, invokes no slot (the
  record of deliveries is as before), and the entry of \<open>k\<close> after it has two empty
  signals: no user registered before the save is connected to them, and firing either
  channel of \<open>k\<close> delivers nothing.
\<close>

theorem C9_save_fires_nothing_and_resets_channels:
  assumes "live st v" and "save ad st k v = Inr (True, st')"
  shows "delivered st' = delivered st \<and>
         (\<exists>e. map_of (m_cache st') k = Some e \<and> requestReload e = [] \<and> reloadDone e = []) \<and>
         delivered (fire_requestReload st' k) = delivered st' \<and>
         delivered (fire_reloadDone st' k) = delivered st'"
proof -
  from save_True_D [OF assms] obtain a val v' b where
    st': "st' = st\<lparr>m_cache := AList.update k
                           \<lparr>resource = Some a, requestReload = [], reloadDone = []\<rparr> (m_cache st),
                       heap_values := (heap_values st)(a \<mapsto> v'), store := b,
                       calls := calls st @ [DoSave k]\<rparr>"
    by blast
  have entry: "map_of (m_cache st') k =
                 Some \<lparr>resource = Some a, requestReload = [], reloadDone = []\<rparr>"
    by (simp add: st' update_conv')
  have d: "delivered st' = delivered st" by (simp add: st')
  show ?thesis
    using entry d by (simp add: fire_requestReload_def fire_reloadDone_def)
qed

text \<open>
  C9 at \<open>registered_state\<close>: before the save a broadcast reaches user \<open>5\<close>, after it
  nobody.
\<close>

theorem C9_save_fires_nothing_and_resets_channels_witness:
  "live registered_state (Some 0) \<and>
   delivered (fire_requestReload registered_state ''temp.txt'') = [RequestReload 5] \<and>
   save (stub_adapter True True) registered_state ''temp.txt'' (Some 0) =
     Inr (True, loaded_state\<lparr>calls := [DoLoad ''temp.txt'', DoSave ''temp.txt'']\<rparr>) \<and>
   delivered (loaded_state\<lparr>calls := [DoLoad ''temp.txt'', DoSave ''temp.txt'']\<rparr>) = [] \<and>
   delivered (fire_requestReload
                (loaded_state\<lparr>calls := [DoLoad ''temp.txt'', DoSave ''temp.txt'']\<rparr>)
                ''temp.txt'') = [] \<and>
   delivered (fire_reloadDone
                (loaded_state\<lparr>calls := [DoLoad ''temp.txt'', DoSave ''temp.txt'']\<rparr>)
                ''temp.txt'') = []"
proof -
  have l: "live registered_state (Some 0)"
    by (simp add: registered_state_eq live_def expired_def)
  have s: "save (stub_adapter True True) registered_state ''temp.txt'' (Some 0) =
     Inr (True, loaded_state\<lparr>calls := [DoLoad ''temp.txt'', DoSave ''temp.txt'']\<rparr>)"
    by (simp add: registered_state_eq loaded_state_eq save_def saveInternal_def copy_shared_def
        release_def Let_def)
  have f: "delivered (fire_requestReload registered_state ''temp.txt'') = [RequestReload 5]"
    by (simp add: registered_state_eq fire_requestReload_def)
  have d: "delivered registered_state = []" by (simp add: registered_state_eq)
  show ?thesis
    using l s f d C9_save_fires_nothing_and_resets_channels [OF l s] by simp
qed

section \<open>Rejected keys\<close>

text \<open>
  C10: a key that fails \<^verbatim>\<open>hasValidExtension\<close> makes \<open>load\<close> return the empty handle
  with the whole state as it was (the cache unchanged, no call of \<^verbatim>\<open>doLoad\<close>), and makes
  \<open>save\<close> return false with no call of \<^verbatim>\<open>doSave\<close>: the record of backend calls and
  the backing store are as before the call.
\<close>

theorem C10_invalid_key_rejected:
  assumes "\<not> hasValidExtension ad k"
  shows "load ad st k = (None, st) \<and>
         (\<exists>st'. save ad st k v = Inr (False, st') \<and> calls st' = calls st \<and> store st' = store st)"
proof -
  have l: "load ad st k = (None, st)"
    using assms by (simp add: load_def loadInternal_def loadInternal_lookup_def)
  have s: "save ad st k v = Inr (False, release (copy_shared st v) v)"
    using assms by (simp add: save_def saveInternal_def)
  have c: "calls (release (copy_shared st v) v) = calls st"
    by (simp add: release_def copy_shared_def destroyData_def Let_def
        split: option.splits deleter.splits)
  have b: "store (release (copy_shared st v) v) = store st"
    by (simp add: release_def copy_shared_def destroyData_def Let_def
        split: option.splits deleter.splits)
  show ?thesis using l s c b by simp
qed

text \<open>C10 on the key \<^verbatim>\<open>missing.ext\<close> and the empty cache.\<close>

theorem C10_invalid_key_rejected_witness:
  "\<not> hasValidExtension (stub_adapter True True) ''missing.ext'' \<and>
   load (stub_adapter True True) (empty_Factory ()) ''missing.ext'' = (None, empty_Factory ()) \<and>
   (\<exists>st'. save (stub_adapter True True) (empty_Factory ()) ''missing.ext'' None = Inr (False, st') \<and>
      calls st' = calls (empty_Factory () :: (nat, unit) Factory) \<and>
      store st' = store (empty_Factory () :: (nat, unit) Factory))"
proof -
  have h: "\<not> hasValidExtension (stub_adapter True True) ''missing.ext''"
    by (simp add: stub_adapter_def)
  show ?thesis
    using h C10_invalid_key_rejected [OF h, of "empty_Factory ()" None] by simp
qed

end
